theory Spec2Isabelle
  imports Main "HOL-Library.Sublist"
begin

section \<open>The query workspace component\<close>

text \<open>
  A shallow embedding of \<^verbatim>\<open>components/query/workspace.tsx\<close>: the React function
  component \<^verbatim>\<open>QueryWorkspace\<close>, its four pieces of local state, its four event handlers
  and the part of its JSX that decides what is displayed.

  The component is asynchronous. Each of the two \<^verbatim>\<open>async\<close> handlers has exactly one
  \<^verbatim>\<open>await\<close>, so each is embedded as two functions: the code that runs up to the
  \<^verbatim>\<open>await\<close> (it has the handler's name) and the code that runs once the awaited promise has
  settled (suffix \<^verbatim>\<open>_resume\<close>). Between the two, any other event of the single-threaded
  event loop may be delivered; \<open>step\<close> delivers one event and \<open>run_events\<close> a sequence.

  A handler is a closure: it reads \<^verbatim>\<open>currentSqlQuery\<close> and \<^verbatim>\<open>verifiedStatus\<close> from the render
  that created it, not from the state at the time it runs. The captured values are therefore
  an explicit argument of every handler.
\<close>

subsection \<open>JavaScript values\<close>

text \<open>
  \<^verbatim>\<open>sql_query_result\<close> is compared with \<^verbatim>\<open>null\<close>, tested for truthiness and dereferenced, so
  it is modelled as a JavaScript value. Numbers are integers here; no claim depends on a
  fractional number or on \<^verbatim>\<open>NaN\<close>.
\<close>

datatype jsval =
    JNull
  | JUndefined
  | JBool bool
  | JNum int
  | JStr string
  | JArr "jsval list"
  | JObj "(string \<times> jsval) list"

datatype error = TypeError

text \<open>JavaScript's \<^verbatim>\<open>ToBoolean\<close>.\<close>

fun truthy :: "jsval \<Rightarrow> bool" where
  "truthy JNull = False"
| "truthy JUndefined = False"
| "truthy (JBool b) = b"
| "truthy (JNum n) = (n \<noteq> 0)"
| "truthy (JStr s) = (s \<noteq> [])"
| "truthy (JArr xs) = True"
| "truthy (JObj fs) = True"

text \<open>
  Property access \<^verbatim>\<open>v.k\<close> for the two keys the component reads (\<^verbatim>\<open>columns\<close>, \<^verbatim>\<open>rows\<close>),
  neither of which is a built-in property of a primitive or of an array: reading a property
  of \<^verbatim>\<open>null\<close> or \<^verbatim>\<open>undefined\<close> throws a TypeError, an object yields its field or
  \<^verbatim>\<open>undefined\<close>, every other value yields \<^verbatim>\<open>undefined\<close>.
\<close>

fun get_prop :: "jsval \<Rightarrow> string \<Rightarrow> error + jsval" where
  "get_prop JNull k = Inl TypeError"
| "get_prop JUndefined k = Inl TypeError"
| "get_prop (JObj fs) k = Inr (case map_of fs k of None \<Rightarrow> JUndefined | Some v \<Rightarrow> v)"
| "get_prop v k = Inr JUndefined"

text \<open>
  The method call \<^verbatim>\<open>v.map(f)\<close>: on an array it maps; on \<^verbatim>\<open>null\<close> and
  \<^verbatim>\<open>undefined\<close> the property read throws, and on every other value \<^verbatim>\<open>map\<close> is not a
  function; both are TypeErrors.
\<close>

fun array_map :: "jsval \<Rightarrow> (jsval \<Rightarrow> 'a) \<Rightarrow> error + 'a list" where
  "array_map (JArr xs) f = Inr (map f xs)"
| "array_map v f = Inl TypeError"

subsection \<open>Props, state and what the handlers touch\<close>

text \<open>
  Modelled from the spec: the type \<^verbatim>\<open>Query\<close> of \<^verbatim>\<open>@/models/api\<close> is not among the sources.
  The fields are those the component destructures (lines 39 to 50); \<^verbatim>\<open>sql_error_message\<close>
  is \<^verbatim>\<open>string | null\<close>, \<open>None\<close> standing for \<^verbatim>\<open>null\<close>. The type \<^verbatim>\<open>QueryStatus\<close> is missing
  too and the component never inspects it: it is the type parameter \<open>'q\<close>.
\<close>

record 'q Query =
  question :: string
  question_date :: string
  nl_response :: string
  username :: string
  sql_query :: string
  sql_query_result :: jsval
  sql_error_message :: "string option"
  status :: 'q
  ai_process :: "string list"
  last_updated :: string

text \<open>The values of the render that a handler closes over.\<close>

record 'q captured =
  captured_currentSqlQuery :: string
  captured_verifiedStatus :: 'q

datatype 'q handler =
    HandleRunQuery "'q captured"
  | HandleSaveQuery "'q captured"

datatype variant = Success | Destructive

datatype 'q toast_action = ToastAction (altText: string) (onClick: "'q handler")

record 'q toast =
  variant :: variant
  title :: string
  description :: "string option"
  action :: "'q toast_action option"

text \<open>
  The two collaborators are props, \<^verbatim>\<open>onExecuteQuery(sql_query)\<close> and
  \<^verbatim>\<open>onPatchQuery({sql_query, query_status})\<close>. What they do is outside the component; the
  model records each call with its arguments, and the promise it returns settles later with
  an outcome that the event loop delivers.
\<close>

datatype 'q call =
    OnExecuteQuery string
  | OnPatchQuery (patch_sql_query: string) (patch_query_status: 'q)

datatype outcome = Resolved jsval | Rejected jsval

record 'q task =
  task_handler :: "'q handler"
  settled :: bool

text \<open>
  The four \<^verbatim>\<open>useState\<close> cells, the \<^verbatim>\<open>query\<close> prop of the latest render, and three logs
  that make the effects observable: the toasts emitted, the collaborator calls made, and the
  suspended handler invocations (a task is addressed by its position, which never changes).
\<close>

record 'q workspace =
  query :: "'q Query"
  currentSqlQuery :: string
  verifiedStatus :: 'q
  savingQuery :: bool
  loadingQueryResults :: bool
  toasts :: "'q toast list"
  calls :: "'q call list"
  tasks :: "'q task list"

text \<open>The first render: \<^verbatim>\<open>useState\<close> takes its initial value, and only then.\<close>

definition mount :: "'q Query \<Rightarrow> 'q workspace" where
  "mount q =
     \<lparr>query = q, currentSqlQuery = sql_query q, verifiedStatus = status q,
      savingQuery = False, loadingQueryResults = False,
      toasts = [], calls = [], tasks = []\<rparr>"

definition setCurrentSqlQuery :: "string \<Rightarrow> 'q workspace \<Rightarrow> 'q workspace" where
  "setCurrentSqlQuery v s = s\<lparr>currentSqlQuery := v\<rparr>"

definition setVerifiedStatus :: "'q \<Rightarrow> 'q workspace \<Rightarrow> 'q workspace" where
  "setVerifiedStatus v s = s\<lparr>verifiedStatus := v\<rparr>"

definition setSavingQuery :: "bool \<Rightarrow> 'q workspace \<Rightarrow> 'q workspace" where
  "setSavingQuery b s = s\<lparr>savingQuery := b\<rparr>"

definition setLoadingQueryResults :: "bool \<Rightarrow> 'q workspace \<Rightarrow> 'q workspace" where
  "setLoadingQueryResults b s = s\<lparr>loadingQueryResults := b\<rparr>"

text \<open>
  Modelled from the spec: the hook \<^verbatim>\<open>useToast\<close> of \<^verbatim>\<open>@/components/ui/use-toast\<close> is not
  among the sources. Its \<^verbatim>\<open>toast\<close> is the notification emitter, a side-effect sink that
  does not throw; the model appends the toast to a log.
\<close>

definition toast_emit :: "'q toast \<Rightarrow> 'q workspace \<Rightarrow> 'q workspace" where
  "toast_emit t s = s\<lparr>toasts := toasts s @ [t]\<rparr>"

definition collaborator_call :: "'q call \<Rightarrow> 'q workspace \<Rightarrow> 'q workspace" where
  "collaborator_call c s = s\<lparr>calls := calls s @ [c]\<rparr>"

definition await :: "'q handler \<Rightarrow> 'q workspace \<Rightarrow> 'q workspace" where
  "await h s = s\<lparr>tasks := tasks s @ [\<lparr>task_handler = h, settled = False\<rparr>]\<rparr>"

subsection \<open>The handlers\<close>

definition handleSqlChange :: "string \<Rightarrow> 'q workspace \<Rightarrow> 'q workspace" where
  "handleSqlChange v s = setCurrentSqlQuery v s"

definition handleVerifyChange :: "'q \<Rightarrow> 'q workspace \<Rightarrow> 'q workspace" where
  "handleVerifyChange v s = setVerifiedStatus v s"

text \<open>
  \<^verbatim>\<open>handleRunQuery\<close>, lines 69 to 72: the flag is set, the collaborator is called with the
  captured SQL text, and the handler suspends. There is no test of the flag.
\<close>

definition handleRunQuery :: "'q captured \<Rightarrow> 'q workspace \<Rightarrow> 'q workspace" where
  "handleRunQuery cl s =
     await (HandleRunQuery cl)
       (collaborator_call (OnExecuteQuery (captured_currentSqlQuery cl))
         (setLoadingQueryResults True s))"

text \<open>
  Lines 73 to 90: the rest of the \<^verbatim>\<open>try\<close> when the promise resolved (the resolved value is
  discarded), the \<^verbatim>\<open>catch\<close> when it rejected, and the \<^verbatim>\<open>finally\<close> after either. The retry
  action of the failure toast is \<^verbatim>\<open>handleRunQuery\<close> itself: the same closure. A collaborator
  that throws before returning a promise lands in the same \<^verbatim>\<open>catch\<close>.
\<close>

definition handleRunQuery_resume ::
  "'q captured \<Rightarrow> outcome \<Rightarrow> 'q workspace \<Rightarrow> 'q workspace" where
  "handleRunQuery_resume cl out s =
     setLoadingQueryResults False
       (case out of
          Resolved r \<Rightarrow>
            toast_emit \<lparr>variant = Success, title = ''Query executed!'',
                        description = None, action = None\<rparr> s
        | Rejected e \<Rightarrow>
            toast_emit \<lparr>variant = Destructive, title = ''Ups! Something went wrong.'',
                        description = Some ''There was a problem with running your query'',
                        action = Some (ToastAction ''Try again'' (HandleRunQuery cl))\<rparr> s)"

text \<open>\<^verbatim>\<open>handleSaveQuery\<close>, lines 93 to 99.\<close>

definition handleSaveQuery :: "'q captured \<Rightarrow> 'q workspace \<Rightarrow> 'q workspace" where
  "handleSaveQuery cl s =
     await (HandleSaveQuery cl)
       (collaborator_call
          (OnPatchQuery (captured_currentSqlQuery cl) (captured_verifiedStatus cl))
         (setSavingQuery True s))"

text \<open>Lines 100 to 118.\<close>

definition handleSaveQuery_resume ::
  "'q captured \<Rightarrow> outcome \<Rightarrow> 'q workspace \<Rightarrow> 'q workspace" where
  "handleSaveQuery_resume cl out s =
     setSavingQuery False
       (case out of
          Resolved r \<Rightarrow>
            toast_emit \<lparr>variant = Success, title = ''Saved!'',
                        description =
                          Some ''Your changes over the query were successfully applied'',
                        action = None\<rparr> s
        | Rejected e \<Rightarrow>
            toast_emit \<lparr>variant = Destructive, title = ''Ups! Something went wrong.'',
                        description = Some ''There was a problem with saving your query'',
                        action = Some (ToastAction ''Try again'' (HandleSaveQuery cl))\<rparr> s)"

text \<open>Calling a handler value, and continuing one after its \<^verbatim>\<open>await\<close>.\<close>

fun invoke :: "'q handler \<Rightarrow> 'q workspace \<Rightarrow> 'q workspace" where
  "invoke (HandleRunQuery cl) s = handleRunQuery cl s"
| "invoke (HandleSaveQuery cl) s = handleSaveQuery cl s"

fun resume :: "'q handler \<Rightarrow> outcome \<Rightarrow> 'q workspace \<Rightarrow> 'q workspace" where
  "resume (HandleRunQuery cl) out s = handleRunQuery_resume cl out s"
| "resume (HandleSaveQuery cl) out s = handleSaveQuery_resume cl out s"

subsection \<open>Rendering\<close>

record column =
  id' :: jsval
  header :: jsval
  accessorKey :: jsval

datatype element =
    LoadingQueryResults
  | SqlError string
  | NoResults
  | SqlResultsTable "column list" jsval
  | NlResponse string
  | Text string

text \<open>Lines 241 to 250: the \<^verbatim>\<open>columns\<close> attribute is evaluated before \<^verbatim>\<open>data\<close>.\<close>

definition sql_results_table :: "jsval \<Rightarrow> error + element" where
  "sql_results_table r =
     (case get_prop r ''columns'' of
        Inl e \<Rightarrow> Inl e
      | Inr cs \<Rightarrow>
          (case array_map cs (\<lambda>columnKey.
                  \<lparr>id' = columnKey, header = columnKey, accessorKey = columnKey\<rparr>) of
             Inl e \<Rightarrow> Inl e
           | Inr cols \<Rightarrow>
               (case get_prop r ''rows'' of
                  Inl e \<Rightarrow> Inl e
                | Inr rows \<Rightarrow> Inr (SqlResultsTable cols rows))))"

text \<open>
  Line 253, \<^verbatim>\<open>{sql_query_result && (...)}\<close>: the block when the value is truthy, otherwise
  the falsy value itself, of which React displays only a number.
\<close>

definition nl_response_block :: "jsval \<Rightarrow> string \<Rightarrow> element list" where
  "nl_response_block r nl =
     (if truthy r then [NlResponse nl]
      else (case r of JNum n \<Rightarrow> [Text ''0''] | _ \<Rightarrow> []))"

text \<open>
  Lines 216 to 260, the results area. The test of \<^verbatim>\<open>sql_error_message\<close> is a truthiness
  test: \<^verbatim>\<open>null\<close> and the empty string both fail it. An exception thrown while the JSX is
  evaluated aborts the render.
\<close>

definition results_or_empty :: "'q Query \<Rightarrow> error + element list" where
  "results_or_empty q =
     (case (if sql_query_result q = JNull then Inr NoResults
            else sql_results_table (sql_query_result q)) of
        Inl e \<Rightarrow> Inl e
      | Inr t \<Rightarrow> Inr (t # nl_response_block (sql_query_result q) (nl_response q)))"

definition results_view :: "bool \<Rightarrow> 'q Query \<Rightarrow> error + element list" where
  "results_view loading q =
     (if loading then Inr [LoadingQueryResults]
      else (case sql_error_message q of
              None \<Rightarrow> results_or_empty q
            | Some m \<Rightarrow> if m \<noteq> [] then Inr [SqlError m] else results_or_empty q))"

text \<open>
  The parts of the rendered tree that react to the state: the two trigger buttons (lines 132
  to 152 and 181 to 200), the status selector, the editor and the results area. The handlers
  handed to the buttons are those of this render. The question header, the process trace and
  the last-updated line only display props and are left out.
\<close>

record 'q button =
  disabled :: bool
  label :: string
  on_click :: "'q handler"

record 'q view =
  save_button :: "'q button"
  verify_select :: 'q
  run_button :: "'q button"
  sql_editor :: string
  results :: "element list"

definition render_scope :: "'q workspace \<Rightarrow> 'q captured" where
  "render_scope s =
     \<lparr>captured_currentSqlQuery = currentSqlQuery s,
      captured_verifiedStatus = verifiedStatus s\<rparr>"

definition QueryWorkspace :: "'q workspace \<Rightarrow> error + 'q view" where
  "QueryWorkspace s =
     (case results_view (loadingQueryResults s) (query s) of
        Inl e \<Rightarrow> Inl e
      | Inr els \<Rightarrow>
          Inr \<lparr>save_button =
                 \<lparr>disabled = savingQuery s,
                  label = (if savingQuery s then ''Saving'' else ''Save''),
                  on_click = HandleSaveQuery (render_scope s)\<rparr>,
               verify_select = verifiedStatus s,
               run_button =
                 \<lparr>disabled = loadingQueryResults s,
                  label = (if loadingQueryResults s then ''Running'' else ''Run''),
                  on_click = HandleRunQuery (render_scope s)\<rparr>,
               sql_editor = currentSqlQuery s,
               results = els\<rparr>)"

subsection \<open>The event loop\<close>

text \<open>
  The events that reach a mounted component: the user edits the SQL text, picks a status,
  activates the Run or the Save button or the action of an emitted toast; a pending promise
  settles; the parent renders the component again with another \<^verbatim>\<open>query\<close>. A user event
  needs the rendered tree, so it is dropped when the render threw; a button that is
  \<^verbatim>\<open>disabled\<close> does not fire its \<^verbatim>\<open>onClick\<close>.

  The file has no error boundary: a render that throws makes React discard the component
  together with its four state cells. The next render the parent makes is then a first
  render again, and \<^verbatim>\<open>useState\<close> initialises the cells from the props (lines 54 to 57).
  The toasts, the collaborator calls and the pending promises are not state of the component
  and outlive it.
\<close>

datatype 'q event =
    SqlChange string
  | VerifyChange 'q
  | ClickRun
  | ClickSave
  | ClickToastAction nat
  | Settle nat outcome
  | Rerender "'q Query"

text \<open>A first render with the props \<open>q\<close>, after the component of \<open>s\<close> was discarded.\<close>

definition remount :: "'q Query \<Rightarrow> 'q workspace \<Rightarrow> 'q workspace" where
  "remount q s = (mount q)\<lparr>toasts := toasts s, calls := calls s, tasks := tasks s\<rparr>"

text \<open>
  Modelled from the spec: the components \<^verbatim>\<open>Button\<close> and \<^verbatim>\<open>ToastAction\<close> of
  \<^verbatim>\<open>@/components/ui\<close> are not among the sources. A trigger that is disabled cannot be
  activated; an enabled one calls its \<^verbatim>\<open>onClick\<close>. The action of a toast has no
  \<^verbatim>\<open>disabled\<close> attribute and calls its \<^verbatim>\<open>onClick\<close> whenever it is activated.
\<close>

definition click :: "'q button \<Rightarrow> 'q workspace \<Rightarrow> 'q workspace" where
  "click b s = (if disabled b then s else invoke (on_click b) s)"

definition click_toast_action :: "nat \<Rightarrow> 'q workspace \<Rightarrow> 'q workspace" where
  "click_toast_action i s =
     (if i < length (toasts s) then
        (case action (toasts s ! i) of
           None \<Rightarrow> s
         | Some a \<Rightarrow> invoke (onClick a) s)
      else s)"

definition settle :: "nat \<Rightarrow> outcome \<Rightarrow> 'q workspace \<Rightarrow> 'q workspace" where
  "settle k out s =
     (if k < length (tasks s) \<and> \<not> settled (tasks s ! k) then
        resume (task_handler (tasks s ! k)) out
          (s\<lparr>tasks := (tasks s)[k := (tasks s ! k)\<lparr>settled := True\<rparr>]\<rparr>)
      else s)"

fun step :: "'q event \<Rightarrow> 'q workspace \<Rightarrow> 'q workspace" where
  "step (SqlChange v) s =
     (case QueryWorkspace s of Inl e \<Rightarrow> s | Inr vw \<Rightarrow> handleSqlChange v s)"
| "step (VerifyChange v) s =
     (case QueryWorkspace s of Inl e \<Rightarrow> s | Inr vw \<Rightarrow> handleVerifyChange v s)"
| "step ClickRun s =
     (case QueryWorkspace s of Inl e \<Rightarrow> s | Inr vw \<Rightarrow> click (run_button vw) s)"
| "step ClickSave s =
     (case QueryWorkspace s of Inl e \<Rightarrow> s | Inr vw \<Rightarrow> click (save_button vw) s)"
| "step (ClickToastAction i) s =
     (case QueryWorkspace s of Inl e \<Rightarrow> s | Inr vw \<Rightarrow> click_toast_action i s)"
| "step (Settle k out) s = settle k out s"
| "step (Rerender q) s =
     (case QueryWorkspace s of Inl e \<Rightarrow> remount q s | Inr vw \<Rightarrow> s\<lparr>query := q\<rparr>)"

fun run_events :: "'q event list \<Rightarrow> 'q workspace \<Rightarrow> 'q workspace" where
  "run_events [] s = s"
| "run_events (e # es) s = run_events es (step e s)"

text \<open>
  The component is mounted in a state when its render completes there, and it stays mounted
  along a sequence of events when the render completes in every state the sequence goes through.
\<close>

definition renders :: "'q workspace \<Rightarrow> bool" where
  "renders s = (case QueryWorkspace s of Inl e \<Rightarrow> False | Inr vw \<Rightarrow> True)"

fun stays_mounted :: "'q event list \<Rightarrow> 'q workspace \<Rightarrow> bool" where
  "stays_mounted [] s = renders s"
| "stays_mounted (e # es) s = (renders s \<and> stays_mounted es (step e s))"

fun is_edit :: "'q event \<Rightarrow> bool" where
  "is_edit (SqlChange v) = True"
| "is_edit (VerifyChange v) = True"
| "is_edit e = False"

subsection \<open>Displayed states and a sample record\<close>

text \<open>What the results area shows, read off the rendered elements.\<close>

fun is_results :: "element \<Rightarrow> bool" where
  "is_results NoResults = True"
| "is_results (SqlResultsTable cols rows) = True"
| "is_results e = False"

fun is_error_banner :: "element \<Rightarrow> bool" where
  "is_error_banner (SqlError m) = True"
| "is_error_banner e = False"

definition shows_loading :: "element list \<Rightarrow> bool" where
  "shows_loading els = (LoadingQueryResults \<in> set els)"

definition shows_error_banner :: "element list \<Rightarrow> bool" where
  "shows_error_banner els = list_ex is_error_banner els"

definition shows_results :: "element list \<Rightarrow> bool" where
  "shows_results els = list_ex is_results els"

text \<open>A query record as the parent hands it over before anything has been executed.\<close>

definition example_query :: "string Query" where
  "example_query =
     \<lparr>question = ''How many users are there?'', question_date = ''2023-08-01'',
      nl_response = ''There is one user'', username = ''reviewer'',
      sql_query = ''SELECT 1'', sql_query_result = JNull, sql_error_message = None,
      status = ''NOT_VERIFIED'', ai_process = [], last_updated = ''2023-08-02''\<rparr>"

text \<open>
  The results the type \<^verbatim>\<open>Query\<close> allows: \<^verbatim>\<open>null\<close>, or an object whose \<^verbatim>\<open>columns\<close> is an array.
\<close>

fun well_typed_result :: "jsval \<Rightarrow> bool" where
  "well_typed_result JNull = True"
| "well_typed_result (JObj fs) =
     (case map_of fs ''columns'' of Some (JArr cs) \<Rightarrow> True | _ \<Rightarrow> False)"
| "well_typed_result v = False"

text \<open>A record whose result is not of the type \<^verbatim>\<open>Query\<close>: rendering it throws.\<close>

definition malformed_query :: "string Query" where
  "malformed_query = example_query\<lparr>sql_query_result := JUndefined\<rparr>"

text \<open>The sample record after the reviewer has changed both draft fields.\<close>

definition edited_workspace :: "string workspace" where
  "edited_workspace =
     run_events [SqlChange ''SELECT 2'', VerifyChange ''VERIFIED''] (mount example_query)"

section \<open>Properties\<close>

subsection \<open>What each operation leaves alone\<close>

lemmas ws_defs =
  setCurrentSqlQuery_def setVerifiedStatus_def setSavingQuery_def setLoadingQueryResults_def
  toast_emit_def collaborator_call_def await_def handleSqlChange_def handleVerifyChange_def
  handleRunQuery_def handleRunQuery_resume_def handleSaveQuery_def handleSaveQuery_resume_def
  remount_def mount_def

lemma invoke_tasks: "tasks (invoke h s) = tasks s @ [\<lparr>task_handler = h, settled = False\<rparr>]"
  by (cases h) (simp_all add: ws_defs)

lemma invoke_toasts: "toasts (invoke h s) = toasts s"
  by (cases h) (simp_all add: ws_defs)

lemma invoke_draft:
  "currentSqlQuery (invoke h s) = currentSqlQuery s \<and> verifiedStatus (invoke h s) = verifiedStatus s
   \<and> query (invoke h s) = query s"
  by (cases h) (simp_all add: ws_defs)

lemma resume_tasks: "tasks (resume h out s) = tasks s"
  by (cases h; cases out) (simp_all add: ws_defs)

lemma resume_calls: "calls (resume h out s) = calls s"
  by (cases h; cases out) (simp_all add: ws_defs)

lemma resume_draft:
  "currentSqlQuery (resume h out s) = currentSqlQuery s \<and> verifiedStatus (resume h out s) = verifiedStatus s
   \<and> query (resume h out s) = query s"
  by (cases h; cases out) (simp_all add: ws_defs)

lemma resume_toasts: "\<exists>t. toasts (resume h out s) = toasts s @ [t]"
  by (cases h; cases out) (simp_all add: ws_defs)

lemma invoke_calls: "\<exists>c. calls (invoke h s) = calls s @ [c]"
  by (cases h) (simp_all add: ws_defs)

lemma settle_tasks_length: "length (tasks (settle k out s)) = length (tasks s)"
  by (simp add: settle_def resume_tasks)

lemma settle_task_handler:
  "j < length (tasks s) \<Longrightarrow> task_handler (tasks (settle k out s) ! j) = task_handler (tasks s ! j)"
  by (simp add: settle_def resume_tasks nth_list_update)

lemma click_tasks:
  "length (tasks s) \<le> length (tasks (click b s)) \<and>
   (\<forall>j < length (tasks s). tasks (click b s) ! j = tasks s ! j)"
  by (simp add: click_def invoke_tasks nth_append)

lemma click_toast_action_tasks:
  "length (tasks s) \<le> length (tasks (click_toast_action i s)) \<and>
   (\<forall>j < length (tasks s). tasks (click_toast_action i s) ! j = tasks s ! j)"
  by (simp add: click_toast_action_def invoke_tasks nth_append split: option.splits)

lemma step_tasks:
  "length (tasks s) \<le> length (tasks (step e s)) \<and>
   (\<forall>j < length (tasks s). task_handler (tasks (step e s) ! j) = task_handler (tasks s ! j))"
  by (cases e)
     (simp_all add: ws_defs click_tasks click_toast_action_tasks settle_tasks_length
        settle_task_handler split: sum.splits)

lemma run_events_tasks:
  "length (tasks s) \<le> length (tasks (run_events es s)) \<and>
   (\<forall>j < length (tasks s). task_handler (tasks (run_events es s) ! j) = task_handler (tasks s ! j))"
proof (induction es arbitrary: s)
  case Nil then show ?case by simp
next
  case (Cons e es)
  have a: "length (tasks s) \<le> length (tasks (step e s))" using step_tasks by blast
  have b: "length (tasks (step e s)) \<le> length (tasks (run_events es (step e s)))"
    using Cons.IH by blast
  show ?case
  proof (intro conjI allI impI)
    show "length (tasks s) \<le> length (tasks (run_events (e # es) s))" using a b by simp
  next
    fix j assume j: "j < length (tasks s)"
    then have "j < length (tasks (step e s))" using a by simp
    then have "task_handler (tasks (run_events es (step e s)) ! j) = task_handler (tasks (step e s) ! j)"
      using Cons.IH by blast
    also have "\<dots> = task_handler (tasks s ! j)" using step_tasks j by blast
    finally show "task_handler (tasks (run_events (e # es) s) ! j) = task_handler (tasks s ! j)" by simp
  qed
qed

lemma step_toasts: "prefix (toasts s) (toasts (step e s))"
proof (cases e)
  case (Settle k out)
  obtain t where "toasts (resume (task_handler (tasks s ! k)) out (s\<lparr>tasks := (tasks s)[k := (tasks s ! k)\<lparr>settled := True\<rparr>]\<rparr>)) = toasts s @ [t]"
    using resume_toasts[of "task_handler (tasks s ! k)" out "s\<lparr>tasks := (tasks s)[k := (tasks s ! k)\<lparr>settled := True\<rparr>]\<rparr>"] by auto
  then show ?thesis using Settle by (simp add: settle_def)
qed (simp_all add: ws_defs click_def click_toast_action_def invoke_toasts split: sum.splits option.splits)

lemma run_events_toasts: "prefix (toasts s) (toasts (run_events es s))"
proof (induction es arbitrary: s)
  case Nil then show ?case by simp
next
  case (Cons e es)
  then show ?case using step_toasts prefix_order.order_trans by fastforce
qed

lemma invoke_calls_prefix: "prefix (calls s) (calls (invoke h s))"
  using invoke_calls[of h s] by auto

lemma step_calls: "prefix (calls s) (calls (step e s))"
  by (cases e)
     (simp_all add: ws_defs click_def click_toast_action_def invoke_calls_prefix settle_def
        resume_calls split: sum.splits option.splits)

lemma run_events_calls: "prefix (calls s) (calls (run_events es s))"
proof (induction es arbitrary: s)
  case Nil then show ?case by simp
next
  case (Cons e es)
  then show ?case using step_calls prefix_order.order_trans by fastforce
qed

lemma step_no_edit_draft:
  "\<not> is_edit e \<Longrightarrow> renders s \<Longrightarrow>
   currentSqlQuery (step e s) = currentSqlQuery s \<and> verifiedStatus (step e s) = verifiedStatus s"
  by (cases e)
     (simp_all add: renders_def click_def click_toast_action_def settle_def invoke_draft
        resume_draft split: sum.splits option.splits)

lemma run_events_no_edit_draft:
  "\<forall>e \<in> set es. \<not> is_edit e \<Longrightarrow> stays_mounted es s \<Longrightarrow>
   currentSqlQuery (run_events es s) = currentSqlQuery s \<and>
   verifiedStatus (run_events es s) = verifiedStatus s"
  by (induction es arbitrary: s) (simp_all add: step_no_edit_draft)

lemmas ev_defs = ws_defs example_query_def render_scope_def QueryWorkspace_def renders_def
  results_view_def results_or_empty_def nl_response_block_def sql_results_table_def
  click_def click_toast_action_def settle_def

lemma nth_of_prefix: "prefix xs ys \<Longrightarrow> i < length xs \<Longrightarrow> ys ! i = xs ! i"
  by (auto simp: prefix_def nth_append)

lemma pending_after_invoke:
  "length (tasks s) < length (tasks (run_events es (invoke h s))) \<and>
   task_handler (tasks (run_events es (invoke h s)) ! length (tasks s)) = h"
  using run_events_tasks[of "invoke h s" es] by (simp add: invoke_tasks)

lemma settle_pending:
  "k < length (tasks s) \<Longrightarrow> \<not> settled (tasks s ! k) \<Longrightarrow>
   settle k out s =
     resume (task_handler (tasks s ! k)) out
       (s\<lparr>tasks := (tasks s)[k := (tasks s ! k)\<lparr>settled := True\<rparr>]\<rparr>)"
  by (simp add: settle_def)

lemma settle_after_invoke:
  assumes "\<not> settled (tasks (run_events es (invoke h s)) ! length (tasks s))"
  shows "settle (length (tasks s)) out (run_events es (invoke h s)) =
     resume h out
       ((run_events es (invoke h s))
          \<lparr>tasks := (tasks (run_events es (invoke h s)))
             [length (tasks s) :=
                (tasks (run_events es (invoke h s)) ! length (tasks s))\<lparr>settled := True\<rparr>]\<rparr>)"
  using assms pending_after_invoke[of s es h] by (simp add: settle_pending)

lemma invoke_last_call: "calls (invoke h s') = calls s' @ [last (calls (invoke h s))]"
  by (cases h) (simp_all add: ws_defs)

lemma resume_rejected_toast:
  "\<exists>t. toasts (resume h (Rejected e) s) = toasts s @ [t] \<and>
       action t = Some (ToastAction ''Try again'' h)"
  by (cases h) (simp_all add: ws_defs)

text \<open>An enabled button calls the handler of the current render.\<close>

lemma click_save_enabled:
  "QueryWorkspace s = Inr vw \<Longrightarrow> \<not> savingQuery s \<Longrightarrow>
   step ClickSave s = handleSaveQuery (render_scope s) s"
  by (auto simp: QueryWorkspace_def click_def split: sum.splits)

lemma click_run_enabled:
  "QueryWorkspace s = Inr vw \<Longrightarrow> \<not> loadingQueryResults s \<Longrightarrow>
   step ClickRun s = handleRunQuery (render_scope s) s"
  by (auto simp: QueryWorkspace_def click_def split: sum.splits)

subsection \<open>Re-entrancy\<close>

text \<open>
  Claim C1, as stated: with \<^verbatim>\<open>loadingQueryResults\<close> true, \<^verbatim>\<open>handleRunQuery\<close> is a no-op
  that starts no second execution call. It fails: the handler does not read the flag. After
  one activation of Run on a fresh component the flag is true; calling the handler again
  changes the state and a second \<^verbatim>\<open>onExecuteQuery\<close> call is made while the first is
  pending.
\<close>

theorem handler_guard_counterexample:
  "loadingQueryResults (step ClickRun (mount example_query)) \<and>
   handleRunQuery (render_scope (mount example_query)) (step ClickRun (mount example_query))
     \<noteq> step ClickRun (mount example_query) \<and>
   calls (handleRunQuery (render_scope (mount example_query))
            (step ClickRun (mount example_query)))
     = [OnExecuteQuery ''SELECT 1'', OnExecuteQuery ''SELECT 1'']"
  by (simp add: ev_defs)

text \<open>
  Claim C1, amended: the guard is the \<^verbatim>\<open>disabled\<close> attribute of the trigger buttons. While
  \<^verbatim>\<open>loadingQueryResults\<close> is true, activating Run changes nothing, and while
  \<^verbatim>\<open>savingQuery\<close> is true, activating Save changes nothing. The handlers themselves have no
  guard: called directly, each makes its collaborator call whatever the flags are.
\<close>

theorem trigger_guard:
  "(loadingQueryResults s \<longrightarrow> step ClickRun s = s) \<and>
   (savingQuery s \<longrightarrow> step ClickSave s = s) \<and>
   calls (handleRunQuery cl s) = calls s @ [OnExecuteQuery (captured_currentSqlQuery cl)] \<and>
   calls (handleSaveQuery cl s) =
     calls s @ [OnPatchQuery (captured_currentSqlQuery cl) (captured_verifiedStatus cl)]"
  by (auto simp: QueryWorkspace_def click_def ws_defs split: sum.splits)

theorem trigger_guard_witness:
  "loadingQueryResults (run_events [ClickRun, ClickSave] (mount example_query)) \<and>
   savingQuery (run_events [ClickRun, ClickSave] (mount example_query)) \<and>
   step ClickRun (run_events [ClickRun, ClickSave] (mount example_query))
     = run_events [ClickRun, ClickSave] (mount example_query) \<and>
   step ClickSave (run_events [ClickRun, ClickSave] (mount example_query))
     = run_events [ClickRun, ClickSave] (mount example_query)"
proof -
  have l: "loadingQueryResults (run_events [ClickRun, ClickSave] (mount example_query))"
    by (simp add: ev_defs)
  have v: "savingQuery (run_events [ClickRun, ClickSave] (mount example_query))"
    by (simp add: ev_defs)
  show ?thesis
    using l v trigger_guard[of "run_events [ClickRun, ClickSave] (mount example_query)"]
    by blast
qed

subsection \<open>The busy flags are reset\<close>



subsection \<open>Retrying a failed operation\<close>

text \<open>
  Claim C3: when an invocation of \<^verbatim>\<open>handleRunQuery\<close> or \<^verbatim>\<open>handleSaveQuery\<close> has failed (its
  collaborator call rejected), triggering the retry action of the failure toast it emitted
  invokes the same handler closure again, so the collaborator receives the arguments of the
  original attempt (the SQL text, and for a save the status too), whatever events, edits of
  the draft included, were delivered before the failure or between the failure and the
  retry. Here \<open>h\<close> is the handler with its captured values, \<open>last (calls (invoke h s))\<close> is
  the call of the original attempt, and the toast emitted at the failure is the one at
  position \<open>length (toasts pending)\<close>.
\<close>

theorem retry_fidelity:
  assumes "pending = run_events before (invoke h s)"
    and "\<not> settled (tasks pending ! length (tasks s))"
    and "later = run_events after (settle (length (tasks s)) (Rejected e) pending)"
  shows "click_toast_action (length (toasts pending)) later = invoke h later \<and>
         calls (click_toast_action (length (toasts pending)) later)
           = calls later @ [last (calls (invoke h s))] \<and>
         last (calls (invoke (HandleRunQuery cl) s))
           = OnExecuteQuery (captured_currentSqlQuery cl) \<and>
         last (calls (invoke (HandleSaveQuery cl) s))
           = OnPatchQuery (captured_currentSqlQuery cl) (captured_verifiedStatus cl)"
proof -
  let ?p = "pending\<lparr>tasks := (tasks pending)[length (tasks s) :=
                (tasks pending ! length (tasks s))\<lparr>settled := True\<rparr>]\<rparr>"
  have st: "settle (length (tasks s)) (Rejected e) pending = resume h (Rejected e) ?p"
    using assms(1,2) settle_after_invoke[of before h s "Rejected e"] by simp
  obtain t where t: "toasts (resume h (Rejected e) ?p) = toasts ?p @ [t]"
    and a: "action t = Some (ToastAction ''Try again'' h)"
    using resume_rejected_toast[of h e ?p] by blast
  have t3: "toasts (settle (length (tasks s)) (Rejected e) pending) = toasts pending @ [t]"
    using st t by simp
  have pre: "prefix (toasts pending @ [t]) (toasts later)"
    using run_events_toasts[of "settle (length (tasks s)) (Rejected e) pending" after] t3
      assms(3)
    by simp
  then have len: "length (toasts pending) < length (toasts later)"
    by (auto simp: prefix_def)
  have "toasts later ! length (toasts pending) = (toasts pending @ [t]) ! length (toasts pending)"
    using nth_of_prefix[OF pre, of "length (toasts pending)"] by simp
  then have nth: "toasts later ! length (toasts pending) = t" by simp
  have c: "click_toast_action (length (toasts pending)) later = invoke h later"
    using len nth a by (simp add: click_toast_action_def)
  show ?thesis using c invoke_last_call[of h later s] by (simp add: ws_defs)
qed

theorem retry_fidelity_witness:
  "\<not> settled (tasks (run_events []
        (invoke (HandleSaveQuery (render_scope (mount example_query))) (mount example_query)))
      ! length (tasks (mount example_query))) \<and>
   currentSqlQuery
     (run_events [SqlChange ''SELECT 2'', VerifyChange ''VERIFIED'']
        (settle (length (tasks (mount example_query))) (Rejected (JStr ''network down''))
           (run_events []
              (invoke (HandleSaveQuery (render_scope (mount example_query)))
                 (mount example_query))))) = ''SELECT 2'' \<and>
   calls
     (click_toast_action
        (length (toasts (run_events []
           (invoke (HandleSaveQuery (render_scope (mount example_query)))
              (mount example_query)))))
        (run_events [SqlChange ''SELECT 2'', VerifyChange ''VERIFIED'']
           (settle (length (tasks (mount example_query))) (Rejected (JStr ''network down''))
              (run_events []
                 (invoke (HandleSaveQuery (render_scope (mount example_query)))
                    (mount example_query))))))
     = [OnPatchQuery ''SELECT 1'' ''NOT_VERIFIED'', OnPatchQuery ''SELECT 1'' ''NOT_VERIFIED'']"
proof -
  have u: "\<not> settled (tasks (run_events []
        (invoke (HandleSaveQuery (render_scope (mount example_query))) (mount example_query)))
      ! length (tasks (mount example_query)))"
    by (simp add: ev_defs)
  have d: "currentSqlQuery
     (run_events [SqlChange ''SELECT 2'', VerifyChange ''VERIFIED'']
        (settle (length (tasks (mount example_query))) (Rejected (JStr ''network down''))
           (run_events []
              (invoke (HandleSaveQuery (render_scope (mount example_query)))
                 (mount example_query))))) = ''SELECT 2''"
    by (simp add: ev_defs)
  have c: "calls
        (run_events [SqlChange ''SELECT 2'', VerifyChange ''VERIFIED'']
           (settle (length (tasks (mount example_query))) (Rejected (JStr ''network down''))
              (run_events []
                 (invoke (HandleSaveQuery (render_scope (mount example_query)))
                    (mount example_query)))))
       = [OnPatchQuery ''SELECT 1'' ''NOT_VERIFIED'']"
    by (simp add: ev_defs)
  have l: "last (calls (invoke (HandleSaveQuery (render_scope (mount example_query)))
              (mount example_query))) = OnPatchQuery ''SELECT 1'' ''NOT_VERIFIED''"
    by (simp add: ev_defs)
  note th = retry_fidelity[where s = "mount example_query"
      and h = "HandleSaveQuery (render_scope (mount example_query))"
      and before = "[]"
      and after = "[SqlChange ''SELECT 2'', VerifyChange ''VERIFIED'']"
      and e = "JStr ''network down''", OF refl u refl, THEN conjunct2, THEN conjunct1]
  show ?thesis
    by (intro conjI, rule u, rule d, simp only: th c l append.simps)
qed

subsection \<open>Saving\<close>

lemma edited_workspace_eval:
  "edited_workspace =
     \<lparr>query = example_query, currentSqlQuery = ''SELECT 2'', verifiedStatus = ''VERIFIED'',
      savingQuery = False, loadingQueryResults = False, toasts = [], calls = [], tasks = []\<rparr>"
  by (simp add: edited_workspace_def ev_defs)

text \<open>
  A render that throws while a save is pending discards the draft: after it, the next render
  initialises both fields from the record it is given, and the save that then resolves
  leaves them there.
\<close>

lemma thrown_render_resets_draft:
  "\<not> renders (run_events [Rerender malformed_query]
       (handleSaveQuery (render_scope edited_workspace) edited_workspace)) \<and>
   currentSqlQuery
     (settle 0 (Resolved JUndefined)
        (run_events [Rerender malformed_query, Rerender example_query]
           (handleSaveQuery (render_scope edited_workspace) edited_workspace)))
     = ''SELECT 1'' \<and>
   verifiedStatus
     (settle 0 (Resolved JUndefined)
        (run_events [Rerender malformed_query, Rerender example_query]
           (handleSaveQuery (render_scope edited_workspace) edited_workspace)))
     = ''NOT_VERIFIED'' \<and>
   \<not> savingQuery
     (settle 0 (Resolved JUndefined)
        (run_events [Rerender malformed_query, Rerender example_query]
           (handleSaveQuery (render_scope edited_workspace) edited_workspace)))"
  by (simp add: edited_workspace_eval malformed_query_def ev_defs)

text \<open>
  Claim C4: \<^verbatim>\<open>handleSaveQuery\<close>, as the render of state \<open>s\<close> binds it, calls
  \<^verbatim>\<open>onPatchQuery\<close> with exactly the draft's \<^verbatim>\<open>currentSqlQuery\<close> and \<^verbatim>\<open>verifiedStatus\<close> of
  \<open>s\<close>. When the call resolves, the success toast is emitted and both draft fields still
  hold the values sent: neither the handler nor any event other than an edit by the user
  (in particular no render with another, possibly stale, \<^verbatim>\<open>query\<close> prop) writes them.
  This is said of a component that stays mounted while the save is pending: every render in
  between completes. A render that throws ends the life of the draft, as
  \<open>thrown_render_resets_draft\<close> shows.
\<close>

theorem save_payload_no_snap_back:
  assumes "\<forall>e \<in> set es. \<not> is_edit e"
    and "stays_mounted es (handleSaveQuery (render_scope s) s)"
    and "pending = run_events es (handleSaveQuery (render_scope s) s)"
    and "\<not> settled (tasks pending ! length (tasks s))"
    and "finished = settle (length (tasks s)) (Resolved r) pending"
  shows "calls (handleSaveQuery (render_scope s) s)
           = calls s @ [OnPatchQuery (currentSqlQuery s) (verifiedStatus s)] \<and>
         toasts finished = toasts pending @
           [\<lparr>variant = Success, title = ''Saved!'',
             description = Some ''Your changes over the query were successfully applied'',
             action = None\<rparr>] \<and>
         currentSqlQuery finished = currentSqlQuery s \<and>
         verifiedStatus finished = verifiedStatus s"
proof -
  let ?s1 = "handleSaveQuery (render_scope s) s"
  have inv: "?s1 = invoke (HandleSaveQuery (render_scope s)) s" by simp
  have st: "finished = resume (HandleSaveQuery (render_scope s)) (Resolved r)
       (pending\<lparr>tasks := (tasks pending)[length (tasks s) :=
                (tasks pending ! length (tasks s))\<lparr>settled := True\<rparr>]\<rparr>)"
    using assms(3,4,5) settle_after_invoke[of es "HandleSaveQuery (render_scope s)" s "Resolved r"]
    by simp
  have d2: "currentSqlQuery pending = currentSqlQuery s \<and> verifiedStatus pending = verifiedStatus s"
    using run_events_no_edit_draft[OF assms(1,2)] assms(3)
    by (simp add: ws_defs)
  show ?thesis using st d2 by (simp add: ws_defs render_scope_def)
qed

theorem save_payload_no_snap_back_witness:
  "\<not> is_edit (Rerender example_query :: string event) \<and>
   stays_mounted [Rerender example_query]
     (handleSaveQuery (render_scope edited_workspace) edited_workspace) \<and>
   sql_query example_query = ''SELECT 1'' \<and>
   \<not> settled (tasks (run_events [Rerender example_query]
        (handleSaveQuery (render_scope edited_workspace) edited_workspace))
      ! length (tasks edited_workspace)) \<and>
   calls (handleSaveQuery (render_scope edited_workspace) edited_workspace)
     = calls edited_workspace @ [OnPatchQuery ''SELECT 2'' ''VERIFIED''] \<and>
   currentSqlQuery
     (settle (length (tasks edited_workspace)) (Resolved JUndefined)
        (run_events [Rerender example_query]
           (handleSaveQuery (render_scope edited_workspace) edited_workspace)))
     = ''SELECT 2'' \<and>
   verifiedStatus
     (settle (length (tasks edited_workspace)) (Resolved JUndefined)
        (run_events [Rerender example_query]
           (handleSaveQuery (render_scope edited_workspace) edited_workspace)))
     = ''VERIFIED''"
proof -
  have a: "\<forall>e \<in> set [Rerender example_query :: string event]. \<not> is_edit e" by simp
  have m: "stays_mounted [Rerender example_query]
     (handleSaveQuery (render_scope edited_workspace) edited_workspace)"
    by (simp add: edited_workspace_eval ev_defs)
  have q: "sql_query example_query = ''SELECT 1''" by (simp add: example_query_def)
  have u: "\<not> settled (tasks (run_events [Rerender example_query]
        (handleSaveQuery (render_scope edited_workspace) edited_workspace))
      ! length (tasks edited_workspace))"
    by (simp add: edited_workspace_eval ev_defs)
  have c: "currentSqlQuery edited_workspace = ''SELECT 2''"
    by (simp add: edited_workspace_eval)
  have v: "verifiedStatus edited_workspace = ''VERIFIED''"
    by (simp add: edited_workspace_eval)
  note th = save_payload_no_snap_back[where s = edited_workspace
      and es = "[Rerender example_query]" and r = JUndefined, OF a m refl u refl]
  have i: "\<not> is_edit (Rerender example_query :: string event)" by simp
  show ?thesis
    using i m q u th c v by (simp only: simp_thms)
qed



subsection \<open>Editing\<close>

text \<open>A collaborator is called only when a handler is invoked: by Run, Save or a retry action.\<close>

lemma calls_only_by_invocation:
  "calls (step e s) \<noteq> calls s \<Longrightarrow>
   e = ClickRun \<or> e = ClickSave \<or> (\<exists>i. e = ClickToastAction i)"
  by (cases e) (auto simp: ws_defs settle_def resume_calls split: sum.splits if_splits)

text \<open>
  Claim C6: \<^verbatim>\<open>handleSqlChange\<close> writes \<^verbatim>\<open>currentSqlQuery\<close> and nothing else,
  \<^verbatim>\<open>handleVerifyChange\<close> writes \<^verbatim>\<open>verifiedStatus\<close> and nothing else: no collaborator call is
  made, no call is left pending, no toast is emitted, and both busy flags and the other draft
  field keep their values. The same holds for the edit events as the event loop delivers them.
\<close>

theorem edits_touch_only_their_field:
  "handleSqlChange v s = s\<lparr>currentSqlQuery := v\<rparr> \<and>
   handleVerifyChange q s = s\<lparr>verifiedStatus := q\<rparr> \<and>
   calls (handleSqlChange v s) = calls s \<and>
   tasks (handleSqlChange v s) = tasks s \<and>
   toasts (handleSqlChange v s) = toasts s \<and>
   loadingQueryResults (handleSqlChange v s) = loadingQueryResults s \<and>
   savingQuery (handleSqlChange v s) = savingQuery s \<and>
   verifiedStatus (handleSqlChange v s) = verifiedStatus s \<and>
   calls (handleVerifyChange q s) = calls s \<and>
   tasks (handleVerifyChange q s) = tasks s \<and>
   toasts (handleVerifyChange q s) = toasts s \<and>
   loadingQueryResults (handleVerifyChange q s) = loadingQueryResults s \<and>
   savingQuery (handleVerifyChange q s) = savingQuery s \<and>
   currentSqlQuery (handleVerifyChange q s) = currentSqlQuery s \<and>
   calls (step (SqlChange v) s) = calls s \<and>
   tasks (step (SqlChange v) s) = tasks s \<and>
   toasts (step (SqlChange v) s) = toasts s \<and>
   calls (step (VerifyChange q) s) = calls s \<and>
   tasks (step (VerifyChange q) s) = tasks s \<and>
   toasts (step (VerifyChange q) s) = toasts s"
  by (simp add: ws_defs split: sum.splits)

subsection \<open>Running\<close>

text \<open>
  Claim C8: when the \<^verbatim>\<open>onExecuteQuery\<close> call of a run resolves, with whatever value (a
  response that carries a \<^verbatim>\<open>sql_error_message\<close> included), exactly one toast is emitted: the
  success toast, which has no action. The destructive toast with the retry action is what a
  rejected call emits.
\<close>

theorem run_resolved_is_success:
  assumes "pending = run_events es (handleRunQuery cl s)"
    and "\<not> settled (tasks pending ! length (tasks s))"
  shows "toasts (settle (length (tasks s)) (Resolved r) pending) =
           toasts pending @
             [\<lparr>variant = Success, title = ''Query executed!'',
               description = None, action = None\<rparr>] \<and>
         toasts (settle (length (tasks s)) (Rejected e) pending) =
           toasts pending @
             [\<lparr>variant = Destructive, title = ''Ups! Something went wrong.'',
               description = Some ''There was a problem with running your query'',
               action = Some (ToastAction ''Try again'' (HandleRunQuery cl))\<rparr>]"
  using assms settle_after_invoke[of es "HandleRunQuery cl" s "Resolved r"]
    settle_after_invoke[of es "HandleRunQuery cl" s "Rejected e"]
  by (simp add: ws_defs)

theorem run_resolved_is_success_witness:
  "\<not> settled (tasks (run_events [SqlChange ''SELECT 3'']
        (handleRunQuery (render_scope edited_workspace) edited_workspace))
      ! length (tasks edited_workspace)) \<and>
   toasts (settle (length (tasks edited_workspace))
             (Resolved (JObj [(''sql_error_message'', JStr ''syntax error'')]))
             (run_events [SqlChange ''SELECT 3'']
                (handleRunQuery (render_scope edited_workspace) edited_workspace)))
     = [\<lparr>variant = Success, title = ''Query executed!'',
         description = None, action = None\<rparr>]"
proof -
  have u: "\<not> settled (tasks (run_events [SqlChange ''SELECT 3'']
        (handleRunQuery (render_scope edited_workspace) edited_workspace))
      ! length (tasks edited_workspace))"
    by (simp add: edited_workspace_eval ev_defs)
  have t: "toasts (run_events [SqlChange ''SELECT 3'']
        (handleRunQuery (render_scope edited_workspace) edited_workspace)) = []"
    by (simp add: edited_workspace_eval ev_defs)
  note th = run_resolved_is_success[where s = edited_workspace
      and cl = "render_scope edited_workspace" and es = "[SqlChange ''SELECT 3'']"
      and r = "JObj [(''sql_error_message'', JStr ''syntax error'')]",
      OF refl u, THEN conjunct1]
  show ?thesis
    using u th t by simp
qed

text \<open>
  Claim C10: \<^verbatim>\<open>handleRunQuery\<close>, as the render of state \<open>s\<close> binds it, passes the draft's
  \<^verbatim>\<open>currentSqlQuery\<close> of \<open>s\<close> to \<^verbatim>\<open>onExecuteQuery\<close>. Whatever events follow while the call
  is pending, edits of the SQL text included, the call made keeps that argument and the
  pending invocation keeps its captured values; an edit adds no call and alters none.
\<close>

theorem run_argument_fixed_at_invocation:
  "calls (handleRunQuery (render_scope s) s) = calls s @ [OnExecuteQuery (currentSqlQuery s)] \<and>
   prefix (calls s @ [OnExecuteQuery (currentSqlQuery s)])
     (calls (run_events es (handleRunQuery (render_scope s) s))) \<and>
   calls (run_events es (handleRunQuery (render_scope s) s)) ! length (calls s)
     = OnExecuteQuery (currentSqlQuery s) \<and>
   task_handler (tasks (run_events es (handleRunQuery (render_scope s) s)) ! length (tasks s))
     = HandleRunQuery (render_scope s) \<and>
   calls (step (SqlChange v) s') = calls s'"
proof -
  let ?s1 = "handleRunQuery (render_scope s) s"
  have c1: "calls ?s1 = calls s @ [OnExecuteQuery (currentSqlQuery s)]"
    by (simp add: ws_defs render_scope_def)
  have p: "prefix (calls s @ [OnExecuteQuery (currentSqlQuery s)]) (calls (run_events es ?s1))"
    using run_events_calls[of ?s1 es] c1 by simp
  have n: "calls (run_events es ?s1) ! length (calls s) = OnExecuteQuery (currentSqlQuery s)"
    using nth_of_prefix[OF p, of "length (calls s)"] by simp
  have k: "task_handler (tasks (run_events es ?s1) ! length (tasks s))
      = HandleRunQuery (render_scope s)"
    using pending_after_invoke[of s es "HandleRunQuery (render_scope s)"] by simp
  have e: "calls (step (SqlChange v) s') = calls s'"
    by (simp add: ws_defs split: sum.splits)
  show ?thesis using c1 p n k e by blast
qed

subsection \<open>The results area\<close>

text \<open>
  Claim C7, as stated: outside loading, the error banner is displayed whenever
  \<^verbatim>\<open>sql_error_message\<close> is non-null. It fails for the empty string, which is not
  \<^verbatim>\<open>null\<close> and is falsy: the results area is displayed, not the banner.
\<close>

theorem error_banner_counterexample:
  "sql_error_message (example_query\<lparr>sql_error_message := Some []\<rparr>) \<noteq> None \<and>
   results_view False (example_query\<lparr>sql_error_message := Some []\<rparr>) = Inr [NoResults]"
  by (simp add: ev_defs)

lemma results_or_empty_elements:
  "results_or_empty q = Inr els \<Longrightarrow>
   \<not> shows_loading els \<and> \<not> shows_error_banner els \<and> shows_results els"
  by (auto simp: results_or_empty_def sql_results_table_def nl_response_block_def
      shows_loading_def shows_error_banner_def shows_results_def
      split: if_splits sum.splits jsval.splits)

lemma results_view_total:
  "loading \<or> well_typed_result (sql_query_result q) \<Longrightarrow> \<exists>els. results_view loading q = Inr els"
  by (cases "sql_query_result q")
     (auto simp: results_view_def results_or_empty_def sql_results_table_def
        split: option.splits jsval.splits)

text \<open>
  Claim C7, amended: whenever the render completes, the results area shows exactly one of
  three states. It shows the loading indicator, alone, exactly when
  \<^verbatim>\<open>loadingQueryResults\<close> is true; otherwise the error banner, alone and with the message
  as its text, exactly when \<^verbatim>\<open>sql_error_message\<close> is truthy, that is neither \<^verbatim>\<open>null\<close> nor
  the empty string; otherwise the results table or the empty state.
\<close>

theorem results_view_three_way:
  assumes "results_view loading q = Inr els"
  shows "(shows_loading els \<longleftrightarrow> loading) \<and>
         (shows_error_banner els \<longleftrightarrow>
            \<not> loading \<and> (\<exists>m. sql_error_message q = Some m \<and> m \<noteq> [])) \<and>
         (shows_results els \<longleftrightarrow>
            \<not> loading \<and> \<not> (\<exists>m. sql_error_message q = Some m \<and> m \<noteq> [])) \<and>
         (loading \<longrightarrow> els = [LoadingQueryResults]) \<and>
         (\<not> loading \<and> sql_error_message q = Some m \<and> m \<noteq> [] \<longrightarrow> els = [SqlError m]) \<and>
         (shows_loading els \<and> \<not> shows_error_banner els \<and> \<not> shows_results els \<or>
          \<not> shows_loading els \<and> shows_error_banner els \<and> \<not> shows_results els \<or>
          \<not> shows_loading els \<and> \<not> shows_error_banner els \<and> shows_results els)"
proof (cases loading)
  case True
  then have "els = [LoadingQueryResults]" using assms by (simp add: results_view_def)
  then show ?thesis using True
    by (simp add: shows_loading_def shows_error_banner_def shows_results_def)
next
  case False
  show ?thesis
  proof (cases "\<exists>m. sql_error_message q = Some m \<and> m \<noteq> []")
    case True
    then obtain m' where m': "sql_error_message q = Some m'" "m' \<noteq> []" by blast
    then have "els = [SqlError m']" using assms False by (simp add: results_view_def)
    then show ?thesis using False m'
      by (simp add: shows_loading_def shows_error_banner_def shows_results_def)
  next
    case nb: False
    then have "results_view loading q = results_or_empty q"
      using False by (auto simp: results_view_def split: option.splits)
    then have "results_or_empty q = Inr els" using assms by simp
    then show ?thesis using results_or_empty_elements[of q els] False nb by auto
  qed
qed

theorem results_view_three_way_witness:
  "results_view True example_query = Inr [LoadingQueryResults] \<and>
   shows_loading [LoadingQueryResults] \<and>
   \<not> shows_error_banner [LoadingQueryResults] \<and>
   \<not> shows_results [LoadingQueryResults] \<and>
   results_view False (example_query\<lparr>sql_error_message := Some ''syntax error''\<rparr>)
     = Inr [SqlError ''syntax error''] \<and>
   \<not> shows_loading [SqlError ''syntax error''] \<and>
   shows_error_banner [SqlError ''syntax error''] \<and>
   \<not> shows_results [SqlError ''syntax error''] \<and>
   results_view False example_query = Inr [NoResults] \<and>
   \<not> shows_loading [NoResults] \<and>
   \<not> shows_error_banner [NoResults] \<and>
   shows_results [NoResults]"
proof -
  have l: "results_view True example_query = Inr [LoadingQueryResults]"
    by (simp add: ev_defs)
  have e: "results_view False (example_query\<lparr>sql_error_message := Some ''syntax error''\<rparr>)
     = Inr [SqlError ''syntax error'']"
    by (simp add: ev_defs)
  have r: "results_view False example_query = Inr [NoResults]"
    by (simp add: ev_defs)
  have m: "sql_error_message (example_query\<lparr>sql_error_message := Some ''syntax error''\<rparr>)
     = Some ''syntax error''" by simp
  have n: "sql_error_message example_query = None" by (simp add: example_query_def)
  show ?thesis
    using l e r m n results_view_three_way[OF l] results_view_three_way[OF e]
      results_view_three_way[OF r]
    by simp
qed

text \<open>
  Claim C9, as stated: for every non-null \<^verbatim>\<open>sql_query_result\<close>, \<^verbatim>\<open>undefined\<close> and an object
  without \<^verbatim>\<open>columns\<close> included, the answer block is shown. It fails for both: the read of
  \<^verbatim>\<open>columns\<close>, or the call of its \<^verbatim>\<open>map\<close>, throws, and nothing is rendered.
\<close>

theorem answer_block_counterexample:
  "sql_query_result (example_query\<lparr>sql_query_result := JUndefined\<rparr>) \<noteq> JNull \<and>
   results_view False (example_query\<lparr>sql_query_result := JUndefined\<rparr>) = Inl TypeError \<and>
   sql_query_result (example_query\<lparr>sql_query_result := JObj []\<rparr>) \<noteq> JNull \<and>
   results_view False (example_query\<lparr>sql_query_result := JObj []\<rparr>) = Inl TypeError"
  by (simp add: ev_defs)

lemma sql_results_table_ok:
  "r = JObj fs \<Longrightarrow> map_of fs ''columns'' = Some (JArr cs) \<Longrightarrow>
   sql_results_table r =
     Inr (SqlResultsTable
            (map (\<lambda>c. \<lparr>id' = c, header = c, accessorKey = c\<rparr>) cs)
            (case map_of fs ''rows'' of None \<Rightarrow> JUndefined | Some v \<Rightarrow> v))"
  by (simp add: sql_results_table_def)

lemma sql_results_table_throws:
  "\<forall>fs cs. r = JObj fs \<longrightarrow> map_of fs ''columns'' \<noteq> Some (JArr cs) \<Longrightarrow>
   sql_results_table r = Inl TypeError"
proof (cases r)
  case (JObj fs)
  assume a: "\<forall>fs cs. r = JObj fs \<longrightarrow> map_of fs ''columns'' \<noteq> Some (JArr cs)"
  show ?thesis
  proof (cases "map_of fs ''columns''")
    case None
    then show ?thesis using JObj by (simp add: sql_results_table_def)
  next
    case (Some c)
    then have "\<forall>cs. c \<noteq> JArr cs" using a JObj by auto
    then show ?thesis using JObj Some by (cases c) (simp_all add: sql_results_table_def)
  qed
qed (simp_all add: sql_results_table_def)

text \<open>
  Claim C9, amended: the empty state is rendered only when \<^verbatim>\<open>sql_query_result\<close> is
  \<^verbatim>\<open>null\<close>, and then without an answer block. For every other value the results-table branch
  is entered and \<^verbatim>\<open>sql_query_result.columns\<close> is read: when the value is an object whose
  \<^verbatim>\<open>columns\<close> is an array, the table is rendered, one column per entry, and the answer block
  with \<^verbatim>\<open>nl_response\<close> follows it; for every other non-null value, \<^verbatim>\<open>undefined\<close> included,
  a TypeError is thrown and the render is aborted. This is the branch the results view takes
  when it is not loading and \<^verbatim>\<open>sql_error_message\<close> is \<^verbatim>\<open>null\<close> or empty.
\<close>

theorem results_or_empty_cases:
  "(results_or_empty q = Inr [NoResults] \<longleftrightarrow> sql_query_result q = JNull) \<and>
   (results_or_empty q = Inr els \<and> NoResults \<in> set els \<longrightarrow> sql_query_result q = JNull) \<and>
   (sql_query_result q \<noteq> JNull \<longrightarrow>
      results_or_empty q =
        (case sql_results_table (sql_query_result q) of
           Inl e \<Rightarrow> Inl e
         | Inr t \<Rightarrow> Inr [t, NlResponse (nl_response q)])) \<and>
   (sql_query_result q = JObj fs \<and> map_of fs ''columns'' = Some (JArr cs) \<longrightarrow>
      results_or_empty q =
        Inr [SqlResultsTable
               (map (\<lambda>c. \<lparr>id' = c, header = c, accessorKey = c\<rparr>) cs)
               (case map_of fs ''rows'' of None \<Rightarrow> JUndefined | Some v \<Rightarrow> v),
             NlResponse (nl_response q)]) \<and>
   (sql_query_result q \<noteq> JNull \<and>
    (\<forall>fs cs. sql_query_result q = JObj fs \<longrightarrow> map_of fs ''columns'' \<noteq> Some (JArr cs)) \<longrightarrow>
      results_or_empty q = Inl TypeError) \<and>
   ((sql_error_message q = None \<or> sql_error_message q = Some []) \<longrightarrow>
      results_view False q = results_or_empty q)"
proof (intro conjI impI)
  show "(results_or_empty q = Inr [NoResults]) = (sql_query_result q = JNull)"
    by (auto simp: results_or_empty_def nl_response_block_def sql_results_table_def
        split: sum.splits if_splits)
next
  assume "results_or_empty q = Inr els \<and> NoResults \<in> set els"
  then show "sql_query_result q = JNull"
    by (auto simp: results_or_empty_def nl_response_block_def sql_results_table_def
        split: sum.splits if_splits jsval.splits)
next
  assume n: "sql_query_result q \<noteq> JNull"
  show "results_or_empty q =
        (case sql_results_table (sql_query_result q) of
           Inl e \<Rightarrow> Inl e
         | Inr t \<Rightarrow> Inr [t, NlResponse (nl_response q)])"
  proof (cases "\<exists>fs cs. sql_query_result q = JObj fs \<and> map_of fs ''columns'' = Some (JArr cs)")
    case True
    then obtain fs cs where "sql_query_result q = JObj fs" "map_of fs ''columns'' = Some (JArr cs)"
      by blast
    then show ?thesis
      using sql_results_table_ok[of "sql_query_result q" fs cs]
      by (simp add: results_or_empty_def nl_response_block_def)
  next
    case False
    then have "sql_results_table (sql_query_result q) = Inl TypeError"
      using sql_results_table_throws[of "sql_query_result q"] by blast
    then show ?thesis using n by (simp add: results_or_empty_def)
  qed
next
  assume "sql_query_result q = JObj fs \<and> map_of fs ''columns'' = Some (JArr cs)"
  then show "results_or_empty q =
        Inr [SqlResultsTable
               (map (\<lambda>c. \<lparr>id' = c, header = c, accessorKey = c\<rparr>) cs)
               (case map_of fs ''rows'' of None \<Rightarrow> JUndefined | Some v \<Rightarrow> v),
             NlResponse (nl_response q)]"
    using sql_results_table_ok[of "sql_query_result q" fs cs]
    by (simp add: results_or_empty_def nl_response_block_def)
next
  assume "sql_query_result q \<noteq> JNull \<and>
    (\<forall>fs cs. sql_query_result q = JObj fs \<longrightarrow> map_of fs ''columns'' \<noteq> Some (JArr cs))"
  then show "results_or_empty q = Inl TypeError"
    using sql_results_table_throws[of "sql_query_result q"]
    by (simp add: results_or_empty_def)
next
  assume "sql_error_message q = None \<or> sql_error_message q = Some []"
  then show "results_view False q = results_or_empty q"
    by (auto simp: results_view_def)
qed

theorem results_or_empty_cases_witness:
  "results_or_empty
     (example_query\<lparr>sql_query_result :=
        JObj [(''columns'', JArr [JStr ''x'']), (''rows'', JArr [JArr [JNum 2]])]\<rparr>)
     = Inr [SqlResultsTable
              [\<lparr>id' = JStr ''x'', header = JStr ''x'', accessorKey = JStr ''x''\<rparr>]
              (JArr [JArr [JNum 2]]),
            NlResponse ''There is one user''] \<and>
   sql_query_result (example_query\<lparr>sql_query_result := JUndefined\<rparr>) \<noteq> JNull \<and>
   results_or_empty (example_query\<lparr>sql_query_result := JUndefined\<rparr>) = Inl TypeError \<and>
   sql_error_message example_query = None \<and>
   results_view False example_query = results_or_empty example_query \<and>
   results_or_empty example_query = Inr [NoResults]"
proof -
  let ?ok = "example_query\<lparr>sql_query_result :=
        JObj [(''columns'', JArr [JStr ''x'']), (''rows'', JArr [JArr [JNum 2]])]\<rparr>"
  let ?bad = "example_query\<lparr>sql_query_result := JUndefined\<rparr>"
  have o: "sql_query_result ?ok =
        JObj [(''columns'', JArr [JStr ''x'']), (''rows'', JArr [JArr [JNum 2]])] \<and>
      map_of [(''columns'', JArr [JStr ''x'']), (''rows'', JArr [JArr [JNum 2]])] ''columns''
        = Some (JArr [JStr ''x''])"
    by simp
  have nl: "nl_response ?ok = ''There is one user''" by (simp add: example_query_def)
  have b: "sql_query_result ?bad \<noteq> JNull \<and>
      (\<forall>fs cs. sql_query_result ?bad = JObj fs \<longrightarrow> map_of fs ''columns'' \<noteq> Some (JArr cs))"
    by simp
  have n: "sql_error_message example_query = None \<or> sql_error_message example_query = Some []"
    by (simp add: example_query_def)
  have z: "sql_query_result example_query = JNull" by (simp add: example_query_def)
  note t1 = results_or_empty_cases[where q = ?ok
      and fs = "[(''columns'', JArr [JStr ''x'']), (''rows'', JArr [JArr [JNum 2]])]"
      and cs = "[JStr ''x'']"]
  note t2 = results_or_empty_cases[where q = ?bad]
  note t3 = results_or_empty_cases[where q = example_query]
  have r1: "results_or_empty ?ok
     = Inr [SqlResultsTable
              [\<lparr>id' = JStr ''x'', header = JStr ''x'', accessorKey = JStr ''x''\<rparr>]
              (JArr [JArr [JNum 2]]),
            NlResponse ''There is one user'']"
    using t1[THEN conjunct2, THEN conjunct2, THEN conjunct2, THEN conjunct1, rule_format, OF o]
      nl
    by simp
  have r2: "results_or_empty ?bad = Inl TypeError" using t2 b by blast
  have r3: "results_view False example_query = results_or_empty example_query"
    using t3 n by blast
  have r4: "results_or_empty example_query = Inr [NoResults]" using t3 z by blast
  show ?thesis using r1 r2 r3 r4 b n z by (simp add: example_query_def)
qed

end
